theory Spec2Isabelle
  imports Complex_Main
begin

section \<open>Shared data model\<close>

text \<open>
  Exceptions of the Python code are values.  Every function that can raise returns
  \<open>error + 'a\<close>, with \<open>Inl\<close> carrying the exception.
\<close>

datatype error =
    KeyError string
  | EnvironmentError
  | ValueError
  | IndexError
  | TypeError
  | ZeroDivisionError
  | LinAlgError
  | CacheError string

text \<open>
  The global random number generator of \<^verbatim>\<open>numpy.random\<close>.  The generator itself is
  library code, so its state type \<open>'g\<close> and its two primitives are taken as given:
  \<open>rng_seed s\<close> is the state installed by \<^verbatim>\<open>numpy.random.seed(s)\<close>, and
  \<open>rng_next g\<close> draws one uniform number from state \<open>g\<close> and returns the advanced state.
\<close>

record 'g generator =
  rng_seed :: "nat \<Rightarrow> 'g"
  rng_next :: "'g \<Rightarrow> real \<times> 'g"

text \<open>\<^verbatim>\<open>numpy.random.rand(n)\<close>: \<open>n\<close> successive draws, threading the state.\<close>

fun rand :: "'g generator \<Rightarrow> nat \<Rightarrow> 'g \<Rightarrow> real list \<times> 'g" where
  "rand R 0 g = ([], g)"
| "rand R (Suc n) g =
     (let (u, g1) = rng_next R g;
          (us, g2) = rand R n g1
      in (u # us, g2))"

section \<open>fgivenx/samples.py: trim_samples\<close>

text \<open>
  \<^verbatim>\<open>samples[choices]\<close> with a boolean mask: numpy selects the rows whose mask entry is
  true, and raises IndexError when the mask and the leading axis differ in length.
\<close>

definition mask_select :: "'a list \<Rightarrow> bool list \<Rightarrow> error + 'a list" where
  "mask_select samples choices =
     (if length choices \<noteq> length samples then Inl IndexError
      else Inr (map fst (filter snd (zip samples choices))))"

text \<open>
  \<^verbatim>\<open>
  def trim_samples(samples, weights, ntrim=-1):
      state = numpy.random.get_state()
      numpy.random.seed(1)
      n = len(weights)
      choices = numpy.random.rand(n) < weights
      new_samples = samples[choices]
      numpy.random.set_state(state)
      return new_samples.copy()
  \<close>
  The function takes the generator state and returns the state it leaves behind.  When
  the selection raises, the statements after it do not run.
\<close>

definition trim_samples ::
  "'g generator \<Rightarrow> 'a list \<Rightarrow> real list \<Rightarrow> int \<Rightarrow> 'g \<Rightarrow> (error + 'a list) \<times> 'g" where
  "trim_samples R samples weights ntrim g =
     (let state = g;
          g1 = rng_seed R 1;
          n = length weights;
          (us, g2) = rand R n g1;
          choices = map2 (\<lambda>u w. u < w) us weights
      in case mask_select samples choices of
           Inl e \<Rightarrow> (Inl e, g2)
         | Inr new_samples \<Rightarrow> (Inr new_samples, state))"

text \<open>A small concrete generator for evaluating the definitions: a linear congruence
  on the naturals below 100.\<close>

definition lcg :: "nat generator" where
  "lcg = \<lparr> rng_seed = (\<lambda>s. s mod 100),
           rng_next = (\<lambda>g. (real g / 100, (21 * g + 7) mod 100)) \<rparr>"

section \<open>fgivenx/parallel.py: openmp_apply\<close>

text \<open>
  \<^verbatim>\<open>os.environ\<close> is a dictionary from names to strings; a name that is not set has no
  entry, and indexing it raises KeyError.
\<close>

type_synonym environ = "string \<rightharpoonup> string"

text \<open>
  The builtin \<^verbatim>\<open>int(s)\<close> of CPython 3.11, with its default settings, on a string whose
  characters are the code points below 256.  Surrounding whitespace is dropped, one sign
  is allowed, and the rest is a non-empty run of decimal digits in which single
  underscores may separate digits.  A string with more than 4300 digits is refused.
  Anything else raises ValueError too, which is \<open>None\<close> here.

  The whitespace that \<^verbatim>\<open>int\<close> drops is tab, line feed, vertical tab, form feed,
  carriage return and space, and the two code points 133 and 160 (next line and no-break
  space).  The separators 28 to 31, which \<^verbatim>\<open>str.strip\<close> would drop, are not among
  them: \<^verbatim>\<open>int\<close> raises on a string that holds one.
\<close>

definition is_space :: "char \<Rightarrow> bool" where
  "is_space c =
     (let k = (of_char c :: nat) in (9 \<le> k \<and> k \<le> 13) \<or> k = 32 \<or> k = 133 \<or> k = 160)"

definition is_digit :: "char \<Rightarrow> bool" where
  "is_digit c = (let k = (of_char c :: nat) in 48 \<le> k \<and> k \<le> 57)"

definition digit_val :: "char \<Rightarrow> nat" where
  "digit_val c = (of_char c :: nat) - 48"

fun parse_digits :: "bool \<Rightarrow> nat \<Rightarrow> string \<Rightarrow> nat option" where
  "parse_digits prev acc [] = (if prev then Some acc else None)"
| "parse_digits prev acc (c # cs) =
     (if is_digit c then parse_digits True (10 * acc + digit_val c) cs
      else if c = CHR ''_'' \<and> prev then parse_digits False acc cs
      else None)"

definition strip :: "string \<Rightarrow> string" where
  "strip s = rev (dropWhile is_space (rev (dropWhile is_space s)))"

definition max_str_digits :: nat where
  "max_str_digits = 4300"

definition py_int :: "string \<Rightarrow> int option" where
  "py_int s =
     (case strip s of
        [] \<Rightarrow> None
      | c # cs \<Rightarrow>
          let body = (if c = CHR ''-'' \<or> c = CHR ''+'' then cs else c # cs)
          in if max_str_digits < length (filter is_digit body) then None
             else if c = CHR ''-'' then map_option (\<lambda>k. - int k) (parse_digits False 0 body)
             else map_option int (parse_digits False 0 body))"

text \<open>
  \<^verbatim>\<open>os.environ['OMP_NUM_THREADS'] is 1\<close> compares the identity of a \<^verbatim>\<open>str\<close> object
  with that of an \<^verbatim>\<open>int\<close> object.  Two objects of different types are never the same
  object, whatever the string holds.
\<close>

definition str_is_int :: "string \<Rightarrow> int \<Rightarrow> bool" where
  "str_is_int s k = False"

text \<open>
  \<^verbatim>\<open>tqdm.tqdm(array)\<close> iterates over the elements of \<open>array\<close> in order; the progress bar
  it draws is not part of the model.
\<close>

definition tqdm :: "'a list \<Rightarrow> 'a list" where
  "tqdm array = array"

text \<open>
  joblib is a library outside the repository, modelled by its documented contract:
  \<^verbatim>\<open>delayed(f)(*args)\<close> is the task of calling \<open>f\<close> on \<open>args\<close>, and
  \<^verbatim>\<open>Parallel(n_jobs=k)(tasks)\<close> returns the list of the tasks' results in the order of
  the tasks.  \<^verbatim>\<open>n_jobs=0\<close> is rejected with ValueError; negative values count back
  from the number of processors.
\<close>

definition delayed :: "('a list \<Rightarrow> 'b) \<Rightarrow> 'a list \<Rightarrow> ('a list \<Rightarrow> 'b) \<times> 'a list" where
  "delayed f args = (f, args)"

definition Parallel :: "int \<Rightarrow> (('a list \<Rightarrow> 'b) \<times> 'a list) list \<Rightarrow> error + 'b list" where
  "Parallel n_jobs tasks =
     (if n_jobs = 0 then Inl ValueError
      else Inr (map (\<lambda>(f, args). f args) tasks))"

definition omp_warning :: string where
  "omp_warning =
     ''Warning: You have requested to use openmp, but environmentvariable OMP_NUM_THREADS=1''"

text \<open>
  \<^verbatim>\<open>
  def openmp_apply(f, array, nprocs=None, **kwargs):
      precurry = kwargs.pop('precurry',())
      postcurry = kwargs.pop('postcurry',())
      if nprocs is None:
          if not os.environ['OMP_NUM_THREADS']:
              raise EnvironmentError(...)
          if os.environ['OMP_NUM_THREADS'] is 1:
              print("Warning: ...")
          nprocs = int(os.environ['OMP_NUM_THREADS'])
      return Parallel(n_jobs=nprocs)(
          delayed(f)(*precurry,x,*postcurry) for x in tqdm.tqdm(array))
  \<close>
  The function \<open>f\<close> receives its positional arguments as a list.  The last argument and
  the second component of the result are the lines printed so far.
\<close>

definition openmp_apply ::
  "('a list \<Rightarrow> 'b) \<Rightarrow> 'a list \<Rightarrow> int option \<Rightarrow> environ \<Rightarrow> 'a list \<Rightarrow> 'a list \<Rightarrow> string list
     \<Rightarrow> (error + 'b list) \<times> string list" where
  "openmp_apply f array nprocs environ precurry postcurry out =
     (let tasks = map (\<lambda>x. delayed f (precurry @ [x] @ postcurry)) (tqdm array)
      in case nprocs of
           None \<Rightarrow>
             (case environ ''OMP_NUM_THREADS'' of
                None \<Rightarrow> (Inl (KeyError ''OMP_NUM_THREADS''), out)
              | Some v \<Rightarrow>
                  if v = [] then (Inl EnvironmentError, out)
                  else
                    let out1 = (if str_is_int v 1 then out @ [omp_warning] else out)
                    in (case py_int v of
                          None \<Rightarrow> (Inl ValueError, out1)
                        | Some k \<Rightarrow> (Parallel k tasks, out1)))
         | Some k \<Rightarrow> (Parallel k tasks, out))"

section \<open>fgivenx/parallel.py: mpi_scatter_array\<close>

text \<open>
  A numpy array of doubles: its shape and its elements in row-major order.  A row of the
  leading axis holds \<open>prod_list (tl (shape a))\<close> consecutive elements.
\<close>

record ndarray =
  shape :: "nat list"
  data :: "real list"

definition row_size :: "ndarray \<Rightarrow> nat" where
  "row_size a = prod_list (tl (shape a))"

definition row :: "ndarray \<Rightarrow> nat \<Rightarrow> real list" where
  "row a i = take (row_size a) (drop (i * row_size a) (data a))"

text \<open>\<^verbatim>\<open>numpy.cumsum\<close>: the running sums of a vector.\<close>

fun cumsum_from :: "nat \<Rightarrow> nat list \<Rightarrow> nat list" where
  "cumsum_from acc [] = []"
| "cumsum_from acc (c # cs) = (acc + c) # cumsum_from (acc + c) cs"

definition cumsum :: "nat list \<Rightarrow> nat list" where
  "cumsum cs = cumsum_from 0 cs"

text \<open>
  The counts and offsets computed on rank 0:
  \<^verbatim>\<open>
  sendcounts = numpy.array([n//nprocs]*nprocs)
  sendcounts[:n-sum(sendcounts)] += 1
  displacements = numpy.insert(numpy.cumsum(sendcounts)[:-1], 0, 0)
  \<close>
\<close>

definition scatter_sendcounts :: "nat \<Rightarrow> nat \<Rightarrow> nat list" where
  "scatter_sendcounts n nprocs =
     (let sendcounts = replicate nprocs (n div nprocs);
          k = n - sum_list sendcounts
      in map (\<lambda>c. c + 1) (take k sendcounts) @ drop k sendcounts)"

definition scatter_displacements :: "nat list \<Rightarrow> nat list" where
  "scatter_displacements sendcounts = 0 # butlast (cumsum sendcounts)"

text \<open>
  \<^verbatim>\<open>
  def mpi_scatter_array(array, comm):
      rank = comm.Get_rank()
      if rank is 0:
          array = array.astype('d').copy()
          n = len(array)
          nprocs = comm.Get_size()
          sendcounts = ...; displacements = ...
          shape = array.shape
      else:
          sendcounts = displacements = shape = None
      shape = comm.bcast(shape)
      sendcount = comm.scatter(sendcounts)
      array_local = numpy.zeros((sendcount,) + shape[1:])
      if rank is 0:
          sendcounts *= numpy.prod(shape[1:])
          displacements *= numpy.prod(shape[1:])
      comm.Scatterv([array, sendcounts, displacements, MPI.DOUBLE], array_local)
      return array_local
  \<close>
  The function runs once on every process of the communicator.  The model takes the
  array held by rank 0 and the size of the communicator, and returns what each rank
  returns, as a list indexed by rank.  MPI is outside the repository:
  \<^verbatim>\<open>comm.scatter\<close> hands entry \<open>r\<close> of the list to rank \<open>r\<close>, and \<^verbatim>\<open>Scatterv\<close>
  copies to rank \<open>r\<close> the \<open>sendcounts[r]\<close> elements of the flat send buffer that start at
  offset \<open>displacements[r]\<close>.  \<^verbatim>\<open>len\<close> of an array without axes raises TypeError, and
  the floor division raises ZeroDivisionError for a divisor of zero.

  For an array with one axis \<^verbatim>\<open>shape[1:]\<close> is the empty tuple, whose
  \<^verbatim>\<open>numpy.prod\<close> is the double \<open>1.0\<close>; multiplying the integer array
  \<^verbatim>\<open>sendcounts\<close> by it in place raises numpy's casting error, a TypeError.  Rank 0
  raises it before the \<^verbatim>\<open>Scatterv\<close>, so no rank receives a block.  For two axes or
  more the product is an integer.
\<close>

definition mpi_scatter_array :: "ndarray \<Rightarrow> nat \<Rightarrow> error + ndarray list" where
  "mpi_scatter_array array nprocs =
     (case shape array of
        [] \<Rightarrow> Inl TypeError
      | n # rest \<Rightarrow>
          if nprocs = 0 then Inl ZeroDivisionError
          else if rest = [] then Inl TypeError
          else
            let sendcounts = scatter_sendcounts n nprocs;
                displacements = scatter_displacements sendcounts;
                sendcounts' = map (\<lambda>c. c * prod_list rest) sendcounts;
                displacements' = map (\<lambda>d. d * prod_list rest) displacements
            in Inr (map (\<lambda>rank.
                     \<lparr> shape = (sendcounts ! rank) # rest,
                       data = take (sendcounts' ! rank) (drop (displacements' ! rank) (data array)) \<rparr>)
                   [0..<nprocs]))"

text \<open>A five by two array for evaluating the scatter on three processes.\<close>

definition demo_array :: ndarray where
  "demo_array = \<lparr> shape = [5, 2], data = [0, 1, 10, 11, 20, 21, 30, 31, 40, 41] \<rparr>"

section \<open>fgivenx/mass.py: PMF\<close>

text \<open>
  \<^verbatim>\<open>scipy.stats.gaussian_kde\<close> is a library outside the repository.  A fitted kernel is
  used in two ways: it is called on values to get their densities, and
  \<^verbatim>\<open>kernel.resample(n)\<close> draws \<open>n\<close> values from it.  The record holds the density
  and the sequence of values that successive draws return; \<open>resample\<close> takes the first
  \<open>n\<close> of them.  Fitting itself is a parameter of the model, since it can fail (an empty
  or constant column has no density estimate).  Doubles are modelled as reals.
\<close>

record kde =
  evaluate :: "real \<Rightarrow> real"
  draw :: "nat \<Rightarrow> real"

definition resample :: "kde \<Rightarrow> nat \<Rightarrow> real list" where
  "resample kern n = map (draw kern) [0..<n]"

text \<open>
  Arrays are objects: \<^verbatim>\<open>ts = samples\<close> makes \<open>ts\<close> another name of the caller's array,
  and \<^verbatim>\<open>ts.sort()\<close> sorts the array it names in place.  The store maps addresses to
  array contents; \<open>nxt\<close> is the next unused address.
\<close>

record store =
  cells :: "nat \<Rightarrow> real list"
  nxt :: nat

text \<open>
  \<^verbatim>\<open>scipy.stats.rankdata(ps)\<close> with its default method: the rank of a value is the
  average of the positions its copies take when the values are sorted, counting from 1.
\<close>

definition rankdata :: "real list \<Rightarrow> real list" where
  "rankdata ps =
     map (\<lambda>p. real (length (filter (\<lambda>q. q < p) ps))
              + (real (length (filter (\<lambda>q. q = p) ps)) + 1) / 2) ps"

text \<open>
  The object built by \<^verbatim>\<open>scipy.interpolate.interp1d(ts, logms, bounds_error=False,
  fill_value=-numpy.inf)\<close> keeps copies of the two arrays.
\<close>

record pmf =
  pmf_ts :: "real list"
  pmf_logms :: "real list"

text \<open>
  \<^verbatim>\<open>
  def __init__(self, samples):
      kernel = scipy.stats.gaussian_kde(samples)
      n = 1000
      if len(samples) < n:
          [ts] = kernel.resample(n)
      else:
          ts = samples
      ts.sort()
      ps = kernel(ts)
      logms = numpy.log(scipy.stats.rankdata(ps) / float(len(ts)))
      self._logpmf = scipy.interpolate.interp1d(ts, logms,
                                                bounds_error=False,
                                                fill_value=-numpy.inf)
  \<close>
  The argument \<open>samples\<close> is the address of the caller's array.
\<close>

definition PMF_init ::
  "(real list \<Rightarrow> error + kde) \<Rightarrow> store \<Rightarrow> nat \<Rightarrow> error + (pmf \<times> store)" where
  "PMF_init gaussian_kde st samples =
     (case gaussian_kde (cells st samples) of
        Inl e \<Rightarrow> Inl e
      | Inr kern \<Rightarrow>
          let n = 1000;
              (ts, st1) =
                (if length (cells st samples) < n
                 then (nxt st,
                       st\<lparr>cells := (cells st)(nxt st := resample kern n), nxt := nxt st + 1\<rparr>)
                 else (samples, st));
              st2 = st1\<lparr>cells := (cells st1)(ts := sort (cells st1 ts))\<rparr>;
              ps = map (evaluate kern) (cells st2 ts);
              logms = map (\<lambda>r. ln (r / real (length (cells st2 ts)))) (rankdata ps)
          in Inr (\<lparr>pmf_ts = cells st2 ts, pmf_logms = logms\<rparr>, st2))"

text \<open>
  Linear interpolation through the points \<open>(x, y)\<close>, for an argument that is not below
  the first \<open>x\<close>: the segment used is the one whose left end is the last \<open>x\<close> not above
  the argument, and the value at the last point is its \<open>y\<close>.
\<close>

fun interp :: "(real \<times> real) list \<Rightarrow> real \<Rightarrow> real" where
  "interp [] t = 0"
| "interp [(x0, y0)] t = y0"
| "interp ((x0, y0) # (x1, y1) # pts) t =
     (if t < x1 then y0 + (y1 - y0) / (x1 - x0) * (t - x0)
      else interp ((x1, y1) # pts) t)"

text \<open>
  Calling the interpolant: outside the range of the stored \<open>ts\<close> the result is the fill
  value \<open>-inf\<close>, which is \<open>None\<close> here.
\<close>

definition logpmf :: "pmf \<Rightarrow> real \<Rightarrow> real option" where
  "logpmf p t =
     (case pmf_ts p of
        [] \<Rightarrow> None
      | x0 # xs \<Rightarrow>
          if t < x0 \<or> last (x0 # xs) < t then None
          else Some (interp (zip (pmf_ts p) (pmf_logms p)) t))"

text \<open>
  \<^verbatim>\<open>
  def __call__(self, t):
      return numpy.exp(self._logpmf(t))
  \<close>
  with \<open>exp(-inf) = 0\<close>.
\<close>

definition PMF_call :: "pmf \<Rightarrow> real \<Rightarrow> real" where
  "PMF_call p t = (case logpmf p t of None \<Rightarrow> 0 | Some v \<Rightarrow> exp v)"

text \<open>Concrete kernels and stores for evaluating the definitions.\<close>

definition demo_kernel :: kde where
  "demo_kernel = \<lparr> evaluate = (\<lambda>x. 1 / (1 + x * x)), draw = (\<lambda>i. real i + 1 / 2) \<rparr>"

definition demo_gaussian_kde :: "real list \<Rightarrow> error + kde" where
  "demo_gaussian_kde xs = (if length xs < 2 then Inl ValueError else Inr demo_kernel)"

definition small_store :: store where
  "small_store = \<lparr> cells = (\<lambda>a. if a = 0 then [3, 0, 1] else []), nxt = 1 \<rparr>"

definition big_store :: store where
  "big_store = \<lparr> cells = (\<lambda>a. if a = 0 then 2 # replicate 999 1 else []), nxt = 1 \<rparr>"

text \<open>
  The interpolant that \<open>PMF_init\<close> stores for a kernel and the sorted values \<open>ts\<close>, named
  for stating results.
\<close>

definition pmf_of :: "kde \<Rightarrow> real list \<Rightarrow> pmf" where
  "pmf_of kern ts =
     \<lparr> pmf_ts = ts,
       pmf_logms = map (\<lambda>r. ln (r / real (length ts))) (rankdata (map (evaluate kern) ts)) \<rparr>"

section \<open>fgivenx/samples.py: compute_samples\<close>

text \<open>
  A matrix is the list of its rows.  A sample set is a list of parameter vectors, the
  x-grid a vector, and a model function takes its positional arguments \<open>[x, theta]\<close> and
  returns one value for each entry of \<open>x\<close>.
\<close>

type_synonym matrix = "real list list"

type_synonym model_fun = "real list list \<Rightarrow> real list"

type_synonym cache_entry = "real list \<times> matrix list \<times> matrix"

text \<open>
  What the function can see and change outside its arguments: the cache files, by path,
  and the lines printed.
\<close>

record world =
  files :: "string \<rightharpoonup> cache_entry"
  printed :: "string list"

text \<open>
  Modelled from the spec: the class \<open>Cache\<close> and the exception \<open>CacheError\<close> of
  \<^verbatim>\<open>fgivenx.io\<close>, which the source imports but does not contain.  A cache is named by a
  path derived from the identifier.  \<open>check\<close> returns the stored result only if the stored
  x and samples are identical to the arguments, and otherwise fails with a cache error
  that carries a diagnostic message; \<open>save\<close> stores the triple at the path, overwriting
  any previous entry.
\<close>

definition Cache :: "string \<Rightarrow> string" where
  "Cache file_root = file_root"

definition Cache_check :: "world \<Rightarrow> string \<Rightarrow> real list \<Rightarrow> matrix list \<Rightarrow> error + matrix" where
  "Cache_check w cache x samples =
     (case files w cache of
        None \<Rightarrow> Inl (CacheError (''No cache file '' @ cache))
      | Some (x', samples', result) \<Rightarrow>
          if x' = x \<and> samples' = samples then Inr result
          else Inl (CacheError (''Cache file '' @ cache @ '' has changed'')))"

definition Cache_save :: "world \<Rightarrow> string \<Rightarrow> real list \<Rightarrow> matrix list \<Rightarrow> matrix \<Rightarrow> world" where
  "Cache_save w cache x samples result = w\<lparr>files := (files w)(cache \<mapsto> (x, samples, result))\<rparr>"

text \<open>
  Modelled from the spec: \<open>parallel_apply\<close>, which the source imports from
  \<^verbatim>\<open>fgivenx.parallel\<close> but does not contain.  Whatever the mode \<open>parallel\<close>, it returns
  \<^verbatim>\<open>[f(*precurry, a, *postcurry) for a in array]\<close>, in the order of \<open>array\<close>.
\<close>

definition parallel_apply ::
  "('a list \<Rightarrow> 'b) \<Rightarrow> 'a list \<Rightarrow> 'a list \<Rightarrow> 'a list \<Rightarrow> int option \<Rightarrow> 'b list" where
  "parallel_apply f array precurry postcurry parallel =
     map (\<lambda>a. f (precurry @ [a] @ postcurry)) array"

text \<open>
  \<^verbatim>\<open>numpy.concatenate(fsamples, axis=1)\<close> joins matrices with the same number of rows
  side by side.  It raises ValueError for an empty list and for matrices whose numbers of
  rows differ.
\<close>

definition concatenate_axis1 :: "matrix list \<Rightarrow> error + matrix" where
  "concatenate_axis1 ms =
     (case ms of
        [] \<Rightarrow> Inl ValueError
      | m # rest \<Rightarrow>
          if \<exists>m' \<in> set rest. length m' \<noteq> length m then Inl ValueError
          else Inr (map concat (transpose ms)))"

text \<open>
  The loop that evaluates the models:
  \<^verbatim>\<open>
  fsamples = []
  for fi, s in zip(f, samples):
      if len(s) > 0:
          fsamps = parallel_apply(fi, s, precurry=(x,), parallel=parallel)
          fsamps = numpy.array(fsamps).transpose().copy()
          fsamples.append(fsamps)
  fsamples = numpy.concatenate(fsamples,axis=1)
  \<close>
\<close>

definition evaluate_models ::
  "model_fun list \<Rightarrow> real list \<Rightarrow> matrix list \<Rightarrow> int option \<Rightarrow> error + matrix" where
  "evaluate_models f x samples parallel =
     concatenate_axis1
       (map (\<lambda>(fi, s). transpose (parallel_apply fi s [x] [] parallel))
          (filter (\<lambda>(fi, s). length s > 0) (zip f samples)))"

text \<open>
  \<^verbatim>\<open>
  def compute_samples(f, x, samples, **kwargs):
      parallel = kwargs.pop('parallel', False)
      cache = kwargs.pop('cache', None)
      if kwargs:
          raise TypeError('Unexpected **kwargs: %r' % kwargs)
      if cache is not None:
          cache = Cache(cache + '_fsamples')
          try:
              return cache.check(x, samples)
          except CacheError as e:
              print(e.msg())
      fsamples = ... (the loop above)
      if cache is not None:
          cache.save(x, samples, fsamples)
      return fsamples
  \<close>
  The argument \<open>kwargs\<close> holds the names of the keywords left after the two known ones
  are taken out.  Only a cache error is caught; any other exception of the check
  propagates.
\<close>

definition samples_compute_samples ::
  "model_fun list \<Rightarrow> real list \<Rightarrow> matrix list \<Rightarrow> int option \<Rightarrow> string option \<Rightarrow> string list
     \<Rightarrow> world \<Rightarrow> (error + matrix) \<times> world" where
  "samples_compute_samples f x samples parallel cache kwargs w =
     (if kwargs \<noteq> [] then (Inl TypeError, w)
      else
        let recompute = (\<lambda>w1.
              case evaluate_models f x samples parallel of
                Inl e \<Rightarrow> (Inl e, w1)
              | Inr fsamples \<Rightarrow>
                  (Inr fsamples,
                   case cache of
                     None \<Rightarrow> w1
                   | Some c \<Rightarrow> Cache_save w1 (Cache (c @ ''_fsamples'')) x samples fsamples))
        in case cache of
             None \<Rightarrow> recompute w
           | Some c \<Rightarrow>
               (case Cache_check w (Cache (c @ ''_fsamples'')) x samples of
                  Inr result \<Rightarrow> (Inr result, w)
                | Inl (CacheError msg) \<Rightarrow> recompute (w\<lparr>printed := printed w @ [msg]\<rparr>)
                | Inl e \<Rightarrow> (Inl e, w)))"

text \<open>A straight line \<open>theta[0] * x + theta[1]\<close> and a world without cache files, for
  evaluating the definitions.\<close>

definition line :: model_fun where
  "line args = (case args of [x, theta] \<Rightarrow> map (\<lambda>xi. theta ! 0 * xi + theta ! 1) x | _ \<Rightarrow> [])"

definition empty_world :: world where
  "empty_world = \<lparr> files = Map.empty, printed = [] \<rparr>"

section \<open>fgivenx/__init__.py: compute_samples\<close>

text \<open>
  The block under the heading Computation, up to the trimming loop:
  \<^verbatim>\<open>
  Zs = numpy.exp(logZs-logZs.max())
  weights = [w/w.sum()*Z for w, Z in zip(weights,Zs)]
  wmax = max([w.max() for w in weights])
  weights = [w/wmax for w in weights]
  ntot = sum([w.sum() for w in weights])
  if ntrim is not None and ntrim < ntot:
      weights = [w*ntrim/ntot for w in weights]
  \<close>
  The maximum of an empty array and of an empty list raises ValueError.  Doubles are
  modelled as reals.
\<close>

definition compute_samples_weights ::
  "real list \<Rightarrow> real list list \<Rightarrow> real option \<Rightarrow> error + real list list" where
  "compute_samples_weights logZs weights ntrim =
     (if logZs = [] then Inl ValueError
      else
        let Zs = map (\<lambda>l. exp (l - Max (set logZs))) logZs;
            weights1 = map (\<lambda>(w, Z). map (\<lambda>v. v / sum_list w * Z) w) (zip weights Zs)
        in if (\<exists>w \<in> set weights1. w = []) \<or> weights1 = [] then Inl ValueError
           else
             let wmax = Max (set (map (\<lambda>w. Max (set w)) weights1));
                 weights2 = map (\<lambda>w. map (\<lambda>v. v / wmax) w) weights1;
                 ntot = sum_list (map sum_list weights2)
             in Inr (case ntrim of
                       None \<Rightarrow> weights2
                     | Some nt \<Rightarrow>
                         if nt < ntot then map (\<lambda>w. map (\<lambda>v. v * nt / ntot) w) weights2
                         else weights2))"

text \<open>
  The three transformations as the specification words them, each on its own: scaling
  every model's normalised weights by \<open>exp (logZ - max logZ)\<close>, dividing all weights by the
  single largest weight, and multiplying all weights by \<open>ntrim / ntot\<close> when \<open>ntrim\<close> is
  given and below the total weight \<open>ntot\<close>.
\<close>

definition evidence_scaled :: "real list \<Rightarrow> real list list \<Rightarrow> real list list" where
  "evidence_scaled logZs weights =
     map2 (\<lambda>w l. map (\<lambda>v. v / sum_list w * exp (l - Max (set logZs))) w) weights logZs"

definition largest_weight :: "real list list \<Rightarrow> real" where
  "largest_weight ws = Max (set (concat ws))"

definition max_scaled :: "real list list \<Rightarrow> real list list" where
  "max_scaled ws = map (map (\<lambda>v. v / largest_weight ws)) ws"

definition total_weight :: "real list list \<Rightarrow> real" where
  "total_weight ws = sum_list (concat ws)"

definition ntrim_scaled :: "real option \<Rightarrow> real list list \<Rightarrow> real list list" where
  "ntrim_scaled ntrim ws =
     (case ntrim of
        None \<Rightarrow> ws
      | Some nt \<Rightarrow>
          if nt < total_weight ws then map (map (\<lambda>v. v * (nt / total_weight ws))) ws
          else ws)"

text \<open>
  The trimming loop
  \<^verbatim>\<open>
  for i, (s, w) in enumerate(zip(samples, weights)):
      samples[i] = fgivenx.samples.trim_samples(s, w)
  \<close>
  threads the generator state through the calls; sample sets beyond the end of the
  weights are left as they are.
\<close>

fun trim_models ::
  "'g generator \<Rightarrow> matrix list \<Rightarrow> real list list \<Rightarrow> 'g \<Rightarrow> (error + matrix list) \<times> 'g" where
  "trim_models R [] ws g = (Inr [], g)"
| "trim_models R (s # ss) [] g = (Inr (s # ss), g)"
| "trim_models R (s # ss) (w # ws) g =
     (case trim_samples R s w (- 1) g of
        (Inl e, g1) \<Rightarrow> (Inl e, g1)
      | (Inr s', g1) \<Rightarrow>
          (case trim_models R ss ws g1 of
             (Inl e, g2) \<Rightarrow> (Inl e, g2)
           | (Inr ss', g2) \<Rightarrow> (Inr (s' # ss'), g2)))"

text \<open>
  The two forms of the call: without \<open>logZs\<close> the arguments are one function, one sample
  set and optional weights; with \<open>logZs\<close> they are lists of these.
\<close>

datatype model_args =
    Single model_fun matrix "real list option"
  | Multi "real list" "model_fun list" "matrix list" "real list option list"

text \<open>
  \<^verbatim>\<open>
  def compute_samples(f, x, samples, **kwargs):
      weights, parallel, ntrim, cache, logZs = (popped from kwargs)
      if kwargs: raise TypeError(...)
      if logZs is None:
          logZs = [0]; f = [f]; samples = [samples]; weights = [weights]
      elif len(logZs) != len(f): raise ValueError(...)
      elif len(logZs) != len(samples): raise ValueError(...)
      elif len(logZs) != len(weights): raise ValueError(...)
      ...
      weights = [numpy.array(i, dtype='double') if i is not None
                 else numpy.ones(len(s), dtype='double')
                 for i, s in zip(weights, samples)]
      for w, s in zip(weights,samples):
          if len(w) != len(s): raise ValueError(...)
      logZs = numpy.array(logZs)
      (the Computation block and the trimming loop above)
      fsamps = fgivenx.samples.compute_samples(f, x, samples,
                                               parallel=parallel, cache=cache)
      return x, fsamps
  \<close>
  The checks that \<open>f\<close> holds functions, that the samples are two-dimensional and that \<open>x\<close>
  is one-dimensional hold by the types of the model.
\<close>

definition compute_samples ::
  "'g generator \<Rightarrow> model_args \<Rightarrow> real list \<Rightarrow> int option \<Rightarrow> real option \<Rightarrow> string option
     \<Rightarrow> string list \<Rightarrow> 'g \<times> world \<Rightarrow> (error + real list \<times> matrix) \<times> 'g \<times> world" where
  "compute_samples R args x parallel ntrim cache kwargs gw =
     (let (g, w) = gw;
          (logZs, f, samples, weights) =
            (case args of
               Single f1 s1 w1 \<Rightarrow> ([0], [f1], [s1], [w1])
             | Multi lz fs ss ws \<Rightarrow> (lz, fs, ss, ws))
      in if kwargs \<noteq> [] then (Inl TypeError, g, w)
         else if length logZs \<noteq> length f \<or> length logZs \<noteq> length samples
                 \<or> length logZs \<noteq> length weights
         then (Inl ValueError, g, w)
         else
           let weights1 = map (\<lambda>(i, s). case i of Some v \<Rightarrow> v | None \<Rightarrow> replicate (length s) 1)
                            (zip weights samples)
           in if \<exists>(w', s) \<in> set (zip weights1 samples). length w' \<noteq> length s
              then (Inl ValueError, g, w)
              else
                (case compute_samples_weights logZs weights1 ntrim of
                   Inl e \<Rightarrow> (Inl e, g, w)
                 | Inr weights2 \<Rightarrow>
                     (case trim_models R samples weights2 g of
                        (Inl e, g1) \<Rightarrow> (Inl e, g1, w)
                      | (Inr trimmed, g1) \<Rightarrow>
                          (case samples_compute_samples f x trimmed parallel cache [] w of
                             (Inl e, w1) \<Rightarrow> (Inl e, g1, w1)
                           | (Inr fsamps, w1) \<Rightarrow> (Inr (x, fsamps), g1, w1)))))"

section \<open>Properties of trim_samples\<close>

lemma length_rand: "length (fst (rand R n g)) = n"
proof (induction n arbitrary: g)
  case 0
  show ?case by simp
next
  case (Suc n)
  obtain u g1 where a: "rng_next R g = (u, g1)"
    by (cases "rng_next R g")
  obtain us g2 where b: "rand R n g1 = (us, g2)"
    by (cases "rand R n g1")
  have "length us = n"
    using Suc.IH [of g1] b by simp
  then show ?case
    using a b by simp
qed

lemma mask_select_same_length:
  "length choices = length samples \<Longrightarrow>
     mask_select samples choices = Inr (map fst (filter snd (zip samples choices)))"
  by (simp add: mask_select_def)

lemma trim_samples_equal_length:
  assumes "length samples = length weights"
  shows "trim_samples R samples weights ntrim g =
           (Inr (map fst (filter snd (zip samples
                   (map2 (\<lambda>u w. u < w) (fst (rand R (length weights) (rng_seed R 1))) weights)))),
            g)"
proof -
  obtain us g2 where r: "rand R (length weights) (rng_seed R 1) = (us, g2)"
    by (cases "rand R (length weights) (rng_seed R 1)")
  have "length us = length weights"
    using length_rand [of R "length weights" "rng_seed R 1"] r by simp
  then have "length (map2 (\<lambda>u w. u < w) us weights) = length samples"
    using assms by simp
  then show ?thesis
    using r by (simp add: trim_samples_def mask_select_same_length)
qed

text \<open>
  Claim C5.  A sample set comes with a weight vector of the same length; the caller in
  \<^verbatim>\<open>fgivenx/__init__.py\<close> raises ValueError on any other pair before it trims.  On
  every such input \<open>trim_samples\<close> returns, what it returns are the selected rows, and the
  generator state after the call is the state before the call.
\<close>

theorem trim_samples_restores_rng:
  "length samples = length weights \<Longrightarrow>
     snd (trim_samples R samples weights ntrim g) = g
     \<and> fst (trim_samples R samples weights ntrim g) =
         Inr (map fst (filter snd (zip samples
               (map2 (\<lambda>u w. u < w) (fst (rand R (length weights) (rng_seed R 1))) weights))))"
  by (simp add: trim_samples_equal_length)

theorem trim_samples_restores_rng_witness:
  "length [[1::real], [2]] = length [1::real, 0]
   \<and> snd (trim_samples lcg [[1::real], [2]] [1, 0] (-1) 5) = 5
   \<and> fst (trim_samples lcg [[1::real], [2]] [1, 0] (-1) 5) = Inr [[1]]"
proof -
  have r: "rand lcg (length [1::real, 0]) (rng_seed lcg 1) = ([1 / 100, 28 / 100], 95)"
    by (simp add: lcg_def numeral_2_eq_2)
  show ?thesis
    using trim_samples_restores_rng [of "[[1::real], [2]]" "[1, 0]" lcg "-1" 5] r
    by simp
qed

text \<open>
  Outside that domain, when the weights and the samples differ in length, the selection
  raises after the generator has been seeded and the saved state is not put back: the
  function has no handler around the selection.  Here the state before the call is 5 and
  the state after it is the seeded state 1.
\<close>

lemma trim_samples_length_mismatch:
  "trim_samples lcg [[1::real]] [] (-1) 5 = (Inl IndexError, 1)"
  by (simp add: trim_samples_def mask_select_def lcg_def)

text \<open>
  Claim C10.  The argument \<open>ntrim\<close> has no influence on what \<open>trim_samples\<close> returns nor on
  the state it leaves: any two values give the same outcome.
\<close>

theorem trim_samples_ignores_ntrim:
  "trim_samples R samples weights ntrim1 g = trim_samples R samples weights ntrim2 g"
  by (simp add: trim_samples_def)

section \<open>Properties of openmp_apply\<close>

lemma Parallel_delayed:
  "k \<noteq> 0 \<Longrightarrow>
     Parallel k (map (\<lambda>x. delayed f (precurry @ x # postcurry)) (tqdm array)) =
       Inr (map (\<lambda>a. f (precurry @ a # postcurry)) array)"
  by (simp add: Parallel_def delayed_def tqdm_def)

lemma py_int_one: "py_int ''1'' = Some 1"
  by (simp add: py_int_def strip_def is_space_def is_digit_def digit_val_def max_str_digits_def)

lemma py_int_four: "py_int ''4'' = Some 4"
  by (simp add: py_int_def strip_def is_space_def is_digit_def digit_val_def max_str_digits_def)

lemma py_int_separator: "py_int [CHR 0x1C, CHR ''7''] = None"
  by (simp add: py_int_def strip_def is_space_def is_digit_def max_str_digits_def)

text \<open>
  Claim C1.  The backend is configured by its worker count, given explicitly or read from
  \<^verbatim>\<open>OMP_NUM_THREADS\<close>; a count that is unset or meaningless is the configuration
  error of the specification, not a case of the contract.  Whenever the worker count is
  usable (given explicitly, or read from a non-empty \<^verbatim>\<open>OMP_NUM_THREADS\<close> that
  \<^verbatim>\<open>int\<close> accepts, and not zero), for every \<open>f\<close>, \<open>A\<close>, \<open>precurry\<close> and \<open>postcurry\<close>,
  \<open>openmp_apply\<close> returns, and what it returns is the sequential reference
  \<^verbatim>\<open>[f(*precurry, a, *postcurry) for a in A]\<close>, in the order of \<open>A\<close>.
\<close>

theorem openmp_apply_sequential:
  assumes "nprocs = Some k
           \<or> (nprocs = None \<and> environ ''OMP_NUM_THREADS'' = Some v \<and> v \<noteq> [] \<and> py_int v = Some k)"
    and "k \<noteq> 0"
  shows "fst (openmp_apply f A nprocs environ precurry postcurry out) =
           Inr (map (\<lambda>a. f (precurry @ [a] @ postcurry)) A)"
  using assms
  by (auto simp add: openmp_apply_def Parallel_delayed Let_def)

theorem openmp_apply_sequential_witness:
  "fst (openmp_apply sum_list [1, 2, 3 :: int] None [''OMP_NUM_THREADS'' \<mapsto> ''4''] [10] [100] []) =
     Inr [111, 112, 113]
   \<and> fst (openmp_apply sum_list [1, 2, 3 :: int] (Some 2) Map.empty [10] [100] []) =
     Inr [111, 112, 113]"
proof -
  have a: "None = Some (4::int)
           \<or> ((None :: int option) = None
               \<and> [''OMP_NUM_THREADS'' \<mapsto> ''4''] ''OMP_NUM_THREADS'' = Some ''4''
               \<and> ''4'' \<noteq> [] \<and> py_int ''4'' = Some 4)"
    by (simp add: py_int_four)
  have b: "Some 2 = Some (2::int)
           \<or> (Some (2::int) = None \<and> Map.empty ''OMP_NUM_THREADS'' = Some ''4''
               \<and> ''4'' \<noteq> [] \<and> py_int ''4'' = Some 2)"
    by simp
  show ?thesis
    using
      openmp_apply_sequential [where nprocs = None and k = 4 and v = "''4''"
        and environ = "[''OMP_NUM_THREADS'' \<mapsto> ''4'']" and f = sum_list
        and A = "[1, 2, 3]" and precurry = "[10]" and postcurry = "[100]" and out = "[]", OF a]
      openmp_apply_sequential [where nprocs = "Some 2" and k = 2 and v = "''4''"
        and environ = Map.empty and f = sum_list
        and A = "[1, 2, 3]" and precurry = "[10]" and postcurry = "[100]" and out = "[]", OF b]
    by simp
qed

text \<open>
  Claim C8, evaluated on the code.  With no explicit worker count and
  \<^verbatim>\<open>OMP_NUM_THREADS=1\<close> the call succeeds, but nothing is printed: the warning is
  guarded by an identity test between a string and an integer, which never holds.  With
  the variable unset the call fails with KeyError from the dictionary lookup, before the
  test that would raise EnvironmentError is reached.
\<close>

theorem openmp_apply_no_warning:
  "openmp_apply f A None [''OMP_NUM_THREADS'' \<mapsto> ''1''] precurry postcurry [] =
     (Inr (map (\<lambda>a. f (precurry @ [a] @ postcurry)) A), [])
   \<and> openmp_apply f A None Map.empty precurry postcurry [] =
     (Inl (KeyError ''OMP_NUM_THREADS''), [])"
  by (simp add: openmp_apply_def Parallel_delayed py_int_one str_is_int_def)

section \<open>Properties of mpi_scatter_array\<close>

lemma scatter_sendcounts_eq:
  assumes "0 < p"
  shows "scatter_sendcounts n p = replicate (n mod p) (n div p + 1) @ replicate (p - n mod p) (n div p)"
proof -
  have k: "n - sum_list (replicate p (n div p)) = n mod p"
    by (simp add: sum_list_replicate minus_mult_div_eq_mod)
  have lt: "n mod p < p"
    using assms by simp
  then have "min p (n mod p) = n mod p"
    by simp
  then show ?thesis
    unfolding scatter_sendcounts_def Let_def k by simp
qed

lemma length_scatter_sendcounts: "0 < p \<Longrightarrow> length (scatter_sendcounts n p) = p"
  by (simp add: scatter_sendcounts_eq)

lemma scatter_sendcounts_nth:
  assumes "0 < p" and "r < p"
  shows "scatter_sendcounts n p ! r = (if r < n mod p then n div p + 1 else n div p)"
  using assms by (simp add: scatter_sendcounts_eq nth_append)

lemma cumsum_from_nth:
  "i < length cs \<Longrightarrow> cumsum_from acc cs ! i = acc + sum_list (take (Suc i) cs)"
proof (induction cs arbitrary: acc i)
  case Nil
  then show ?case by simp
next
  case (Cons c cs)
  then show ?case by (cases i) simp_all
qed

lemma length_cumsum_from: "length (cumsum_from acc cs) = length cs"
  by (induction cs arbitrary: acc) simp_all

lemma scatter_displacements_nth:
  assumes "r < length cs"
  shows "scatter_displacements cs ! r = sum_list (take r cs)"
proof (cases r)
  case 0
  then show ?thesis by (simp add: scatter_displacements_def)
next
  case (Suc j)
  then have j: "j < length cs - 1" "j < length cs"
    using assms by simp_all
  have "scatter_displacements cs ! r = butlast (cumsum cs) ! j"
    using Suc by (simp add: scatter_displacements_def)
  also have "\<dots> = cumsum cs ! j"
    using j by (simp add: nth_butlast cumsum_def length_cumsum_from)
  also have "\<dots> = sum_list (take (Suc j) cs)"
    using j by (simp add: cumsum_def cumsum_from_nth)
  finally show ?thesis using Suc by simp
qed

lemma sum_take_sendcounts:
  assumes "0 < p" and "r < p"
  shows "sum_list (take r (scatter_sendcounts n p)) = r * (n div p) + min r (n mod p)"
proof (cases "r \<le> n mod p")
  case True
  then show ?thesis
    using assms by (simp add: scatter_sendcounts_eq sum_list_replicate min_def)
next
  case False
  then show ?thesis
    using assms
    by (simp add: scatter_sendcounts_eq sum_list_replicate min_def algebra_simps)
qed

lemma take_row_of_block:
  assumes "i < c"
  shows "take m (drop (i * m) (take (c * m) (drop (d * m) xs))) = take m (drop ((d + i) * m) xs)"
proof -
  have "m \<le> (c - i) * m"
    using assms by (cases "c - i") simp_all
  then have "min m (c * m - i * m) = m"
    by (simp add: diff_mult_distrib)
  then show ?thesis
    by (simp add: drop_take take_take add.commute algebra_simps)
qed


lemma mpi_scatter_array_one_axis:
  "0 < p \<Longrightarrow> shape a = [n] \<Longrightarrow> mpi_scatter_array a p = Inl TypeError"
  by (simp add: mpi_scatter_array_def)

lemma mpi_scatter_array_Inr:
  assumes "0 < p" and "shape a = n # rest" and "rest \<noteq> []"
  shows "mpi_scatter_array a p =
           Inr (map (\<lambda>rank.
                  \<lparr> shape = (scatter_sendcounts n p ! rank) # rest,
                    data = take (scatter_sendcounts n p ! rank * prod_list rest)
                             (drop (scatter_displacements (scatter_sendcounts n p) ! rank * prod_list rest)
                                (data a)) \<rparr>)
                [0..<p])"
proof -
  have len: "length (scatter_sendcounts n p) = p"
    using assms(1) by (rule length_scatter_sendcounts)
  have dlen: "length (scatter_displacements (scatter_sendcounts n p)) = p"
    using assms(1) len by (simp add: scatter_displacements_def cumsum_def length_cumsum_from)
  show ?thesis
    using assms len dlen by (simp add: mpi_scatter_array_def Let_def)
qed

text \<open>
  Claim C6.  An array with rows has a leading axis of length \<open>n\<close> and at least one more
  axis.  Scattering it over \<open>p\<close> processes succeeds, and rank \<open>r\<close> receives a contiguous
  block of rows of the leading axis: \<open>n div p + 1\<close> rows when \<open>r < n mod p\<close> and \<open>n div p\<close>
  rows otherwise, starting at row \<open>r * (n div p) + min r (n mod p)\<close>.  The sizes therefore
  differ by at most one and the remainder goes to the lowest ranks.
\<close>

theorem mpi_scatter_array_blocks:
  assumes "0 < p" and "r < p" and "shape a = n # rest" and "rest \<noteq> []"
  defines "c \<equiv> (if r < n mod p then n div p + 1 else n div p)"
  defines "d \<equiv> r * (n div p) + min r (n mod p)"
  shows "\<exists>locals. mpi_scatter_array a p = Inr locals
           \<and> length locals = p
           \<and> shape (locals ! r) = c # rest
           \<and> data (locals ! r) = take (c * row_size a) (drop (d * row_size a) (data a))
           \<and> (\<forall>i<c. row (locals ! r) i = row a (d + i))"
proof -
  let ?cs = "scatter_sendcounts n p"
  let ?m = "prod_list rest"
  let ?locals = "map (\<lambda>rank.
                  \<lparr> shape = (?cs ! rank) # rest,
                    data = take (?cs ! rank * ?m)
                             (drop (scatter_displacements ?cs ! rank * ?m) (data a)) \<rparr>)
                [0..<p]"
  have run: "mpi_scatter_array a p = Inr ?locals"
    using assms(1,3,4) by (rule mpi_scatter_array_Inr)
  have m: "row_size a = ?m"
    using assms(3) by (simp add: row_size_def)
  have cnt: "?cs ! r = c"
    using assms(1,2) by (simp add: scatter_sendcounts_nth c_def)
  have "scatter_displacements ?cs ! r = sum_list (take r ?cs)"
    using assms(1,2) by (simp add: scatter_displacements_nth length_scatter_sendcounts)
  then have dis: "scatter_displacements ?cs ! r = d"
    using assms(1,2) by (simp add: sum_take_sendcounts d_def)
  have sh: "shape (?locals ! r) = c # rest"
    using assms(2) cnt by simp
  have da: "data (?locals ! r) = take (c * ?m) (drop (d * ?m) (data a))"
    using assms(2) cnt dis by simp
  have rs: "row_size (?locals ! r) = ?m"
    using sh by (simp add: row_size_def)
  have rows: "\<forall>i<c. row (?locals ! r) i = row a (d + i)"
    unfolding row_def rs m da by (simp add: take_row_of_block)
  show ?thesis
    using run sh da rows m by simp
qed



theorem mpi_scatter_array_blocks_witness:
  "mpi_scatter_array demo_array 3 =
     Inr [\<lparr> shape = [2, 2], data = [0, 1, 10, 11] \<rparr>,
          \<lparr> shape = [2, 2], data = [20, 21, 30, 31] \<rparr>,
          \<lparr> shape = [1, 2], data = [40, 41] \<rparr>]"
proof -
  have sc: "scatter_sendcounts 5 3 = [2, 2, 1]"
    by code_simp
  have up: "[0..<3] = [0, 1, 2::nat]"
    by code_simp
  have nths: "[a0, a1, a2] ! 1 = a1" "[a0, a1, a2] ! 2 = a2" for a0 a1 a2 :: nat
    by simp_all
  have run: "mpi_scatter_array demo_array 3 =
     Inr [\<lparr> shape = [2, 2], data = [0, 1, 10, 11] \<rparr>,
          \<lparr> shape = [2, 2], data = [20, 21, 30, 31] \<rparr>,
          \<lparr> shape = [1, 2], data = [40, 41] \<rparr>]"
    by (simp add: mpi_scatter_array_def demo_array_def sc up nths scatter_displacements_def
        cumsum_def Let_def)
  have "\<exists>locals. mpi_scatter_array demo_array 3 = Inr locals
           \<and> length locals = 3
           \<and> shape (locals ! 1) = (if (1::nat) < 5 mod 3 then 5 div 3 + 1 else 5 div 3) # [2]
           \<and> data (locals ! 1) =
               take ((if (1::nat) < 5 mod 3 then 5 div 3 + 1 else 5 div 3) * row_size demo_array)
                 (drop ((1 * (5 div 3) + min 1 (5 mod 3)) * row_size demo_array) (data demo_array))
           \<and> (\<forall>i<(if (1::nat) < 5 mod 3 then 5 div 3 + 1 else 5 div 3).
                 row (locals ! 1) i = row demo_array (1 * (5 div 3) + min 1 (5 mod 3) + i))"
    by (rule mpi_scatter_array_blocks [of 3 1 demo_array 5 "[2]"]) (simp_all add: demo_array_def)
  then show ?thesis
    using run by simp
qed

section \<open>Properties of PMF\<close>

lemma PMF_init_resampled:
  assumes "gaussian_kde (cells st a) = Inr k" and "length (cells st a) < 1000"
  shows "PMF_init gaussian_kde st a =
           Inr (pmf_of k (sort (resample k 1000)),
                st\<lparr>cells := (cells st)(nxt st := sort (resample k 1000)), nxt := nxt st + 1\<rparr>)"
  using assms by (simp add: PMF_init_def pmf_of_def Let_def)

lemma PMF_init_in_place:
  assumes "gaussian_kde (cells st a) = Inr k" and "1000 \<le> length (cells st a)"
  shows "PMF_init gaussian_kde st a =
           Inr (pmf_of k (sort (cells st a)), st\<lparr>cells := (cells st)(a := sort (cells st a))\<rparr>)"
  using assms by (simp add: PMF_init_def pmf_of_def Let_def)

lemma length_resample: "length (resample k n) = n"
  by (simp add: resample_def)

lemma PMF_init_cases:
  assumes "PMF_init gaussian_kde st a = Inr (p, st')"
  obtains k ts where "p = pmf_of k ts" and "sorted ts" and "1000 \<le> length ts"
proof -
  obtain k where k: "gaussian_kde (cells st a) = Inr k"
    using assms by (cases "gaussian_kde (cells st a)") (simp_all add: PMF_init_def)
  show ?thesis
  proof (cases "length (cells st a) < 1000")
    case True
    then have "p = pmf_of k (sort (resample k 1000))"
      using assms k by (simp add: PMF_init_resampled)
    then show ?thesis
      using that [of k "sort (resample k 1000)"] by (simp add: length_resample)
  next
    case False
    then have "p = pmf_of k (sort (cells st a))"
      using assms k by (simp add: PMF_init_in_place)
    then show ?thesis
      using that [of k "sort (cells st a)"] False by simp
  qed
qed


lemma rank_bounds:
  fixes ps :: "real list"
  assumes "p \<in> set ps"
  defines "r \<equiv> real (length (filter (\<lambda>q. q < p) ps))
              + (real (length (filter (\<lambda>q. q = p) ps)) + 1) / 2"
  shows "1 \<le> r" and "r \<le> real (length ps)"
proof -
  let ?l = "length (filter (\<lambda>q. q < p) ps)"
  let ?e = "length (filter (\<lambda>q. q = p) ps)"
  have "filter (\<lambda>q. q = p) ps \<noteq> []"
    using assms(1) by (simp add: filter_empty_conv)
  then have e: "1 \<le> ?e"
    by (cases "filter (\<lambda>q. q = p) ps") simp_all
  have "?l + ?e = length (filter (\<lambda>q. q < p \<or> q = p) ps)"
    by (induction ps) auto
  also have "\<dots> \<le> length ps"
    by (rule length_filter_le)
  finally have le: "?l + ?e \<le> length ps" .
  have a: "real ?l + real ?e \<le> real (length ps)"
    using le by (metis of_nat_add of_nat_le_iff)
  have b: "1 \<le> real ?e"
    using e by simp
  have c: "0 \<le> real ?l"
    by simp
  have lower: "1 \<le> x + (y + 1) / 2" if "1 \<le> y" and "0 \<le> x" for x y :: real
    using that by (simp add: field_simps)
  have upper: "x + (y + 1) / 2 \<le> z" if "x + y \<le> z" and "1 \<le> y" for x y z :: real
    using that by (simp add: field_simps)
  show "1 \<le> r"
    unfolding r_def using b c by (rule lower)
  show "r \<le> real (length ps)"
    unfolding r_def using a b by (rule upper)
qed

lemma logms_nonpos:
  assumes "v \<in> set (pmf_logms (pmf_of k ts))"
  shows "v \<le> 0"
proof -
  let ?ps = "map (evaluate k) ts"
  obtain r where r: "r \<in> set (rankdata ?ps)" and v: "v = ln (r / real (length ts))"
    using assms by (auto simp add: pmf_of_def)
  obtain p where p: "p \<in> set ?ps"
    and rp: "r = real (length (filter (\<lambda>q. q < p) ?ps))
                 + (real (length (filter (\<lambda>q. q = p) ?ps)) + 1) / 2"
    using r unfolding rankdata_def by auto
  have lo: "1 \<le> r" and hi: "r \<le> real (length ?ps)"
    using rank_bounds [OF p] rp by simp_all
  have "r \<le> real (length ts)"
    using hi by simp
  then have n: "0 < real (length ts)"
    using lo by linarith
  have "0 < r / real (length ts)"
    using lo n by simp
  moreover have "r / real (length ts) \<le> 1"
    using hi n by simp
  ultimately show ?thesis
    unfolding v by (simp add: ln_le_zero_iff)
qed

lemma interp_nonpos:
  assumes "sorted (map fst pts)" and "pts \<noteq> []" and "\<forall>q\<in>set pts. snd q \<le> 0"
    and "fst (hd pts) \<le> t"
  shows "interp pts t \<le> 0"
  using assms
proof (induction pts t rule: interp.induct)
  case (1 t)
  then show ?case by simp
next
  case (2 x0 y0 t)
  then show ?case by simp
next
  case (3 x0 y0 x1 y1 pts t)
  show ?case
  proof (cases "t < x1")
    case True
    have x: "x0 \<le> t" using "3.prems"(4) by simp
    have y: "y0 \<le> 0" "y1 \<le> 0" using "3.prems"(3) by simp_all
    define l where "l = (t - x0) / (x1 - x0)"
    have l: "0 \<le> l" "l \<le> 1"
      using x True by (simp_all add: l_def)
    have "y0 + (y1 - y0) / (x1 - x0) * (t - x0) = (1 - l) * y0 + l * y1"
      by (simp add: l_def algebra_simps diff_divide_distrib add_divide_distrib)
    moreover have "(1 - l) * y0 \<le> 0"
      using l y by (simp add: mult_nonneg_nonpos)
    moreover have "l * y1 \<le> 0"
      using l y by (simp add: mult_nonneg_nonpos)
    ultimately show ?thesis
      using True by simp
  next
    case False
    have "interp ((x1, y1) # pts) t \<le> 0"
    proof (rule "3.IH")
      show "\<not> t < x1" by (rule False)
      show "sorted (map fst ((x1, y1) # pts))" using "3.prems"(1) by simp
      show "(x1, y1) # pts \<noteq> []" by simp
      show "\<forall>q\<in>set ((x1, y1) # pts). snd q \<le> 0" using "3.prems"(3) by simp
      show "fst (hd ((x1, y1) # pts)) \<le> t" using False by simp
    qed
    then show ?thesis using False by simp
  qed
qed


lemma sorted_le_last:
  fixes ts :: "real list"
  assumes "sorted ts" and "x \<in> set ts"
  shows "x \<le> last ts"
  using assms by (induction ts) (auto split: if_splits)

lemma sorted_Min_Max:
  fixes xs :: "real list"
  assumes "sorted (x0 # xs)"
  shows "Min (set (x0 # xs)) = x0" and "Max (set (x0 # xs)) = last (x0 # xs)"
proof -
  show "Min (set (x0 # xs)) = x0"
    using assms by (intro Min_eqI) auto
  show "Max (set (x0 # xs)) = last (x0 # xs)"
  proof (rule Max_eqI)
    show "finite (set (x0 # xs))" by simp
    show "y \<le> last (x0 # xs)" if "y \<in> set (x0 # xs)" for y
      using assms that by (rule sorted_le_last)
    show "last (x0 # xs) \<in> set (x0 # xs)"
      by (rule last_in_set) simp
  qed
qed

lemma length_logms: "length (pmf_logms (pmf_of k ts)) = length ts"
  by (simp add: pmf_of_def rankdata_def)

lemma logpmf_inside_nonpos:
  assumes "sorted ts" and "logpmf (pmf_of k ts) y = Some v"
  shows "v \<le> 0"
proof -
  let ?p = "pmf_of k ts"
  have ts: "pmf_ts ?p = ts"
    by (simp add: pmf_of_def)
  obtain x0 xs where c: "ts = x0 # xs"
    using assms(2) ts by (cases ts) (simp_all add: logpmf_def)
  have inside: "x0 \<le> y"
    using assms(2) ts c by (simp add: logpmf_def split: if_splits)
  have v: "v = interp (zip ts (pmf_logms ?p)) y"
    using assms(2) ts c by (simp add: logpmf_def split: if_splits)
  obtain l0 ls where l: "pmf_logms ?p = l0 # ls"
    using length_logms [of k ts] c by (cases "pmf_logms ?p") simp_all
  have "interp (zip ts (pmf_logms ?p)) y \<le> 0"
  proof (rule interp_nonpos)
    show "sorted (map fst (zip ts (pmf_logms ?p)))"
      using assms(1) by (simp add: length_logms)
    show "zip ts (pmf_logms ?p) \<noteq> []"
      using c l by simp
    show "\<forall>q\<in>set (zip ts (pmf_logms ?p)). snd q \<le> 0"
    proof
      fix q assume q: "q \<in> set (zip ts (pmf_logms ?p))"
      obtain a b where ab: "q = (a, b)"
        by (cases q)
      have "b \<in> set (pmf_logms ?p)"
        using q unfolding ab by (rule set_zip_rightD)
      then have "snd q \<in> set (pmf_logms ?p)"
        by (simp add: ab)
      then show "snd q \<le> 0"
        by (rule logms_nonpos)
    qed
    show "fst (hd (zip ts (pmf_logms ?p))) \<le> y"
      using c l inside by simp
  qed
  then show ?thesis
    using v by simp
qed

lemma logpmf_outside:
  assumes "sorted ts" and "ts \<noteq> []" and "y < Min (set ts) \<or> Max (set ts) < y"
  shows "logpmf (pmf_of k ts) y = None"
proof -
  obtain x0 xs where c: "ts = x0 # xs"
    using assms(2) by (cases ts) simp_all
  have "Min (set ts) = x0" and "Max (set ts) = last (x0 # xs)"
    using assms(1) sorted_Min_Max [of x0 xs] unfolding c by blast+
  then have "y < x0 \<or> last (x0 # xs) < y"
    using assms(3) by presburger
  then show ?thesis
    unfolding c by (auto simp add: logpmf_def pmf_of_def)
qed

text \<open>
  Claim C3.  For every column from which a PMF is constructed, the mass at every \<open>y\<close>
  lies in the closed interval from 0 to 1, and at every \<open>y\<close> strictly below the smallest
  or strictly above the largest of the sorted values it is 0.
\<close>

theorem PMF_call_bounds:
  assumes "PMF_init gaussian_kde st a = Inr (p, st')"
  shows "0 \<le> PMF_call p y \<and> PMF_call p y \<le> 1
         \<and> (y < Min (set (pmf_ts p)) \<or> Max (set (pmf_ts p)) < y \<longrightarrow> PMF_call p y = 0)"
proof -
  obtain k ts where p: "p = pmf_of k ts" and s: "sorted ts" and n: "1000 \<le> length ts"
    using assms by (rule PMF_init_cases)
  have ne: "ts \<noteq> []"
    using n by auto
  have ts: "pmf_ts p = ts"
    by (simp add: p pmf_of_def)
  have range: "0 \<le> PMF_call p y \<and> PMF_call p y \<le> 1"
  proof (cases "logpmf p y")
    case None
    then show ?thesis by (simp add: PMF_call_def)
  next
    case (Some v)
    then have "v \<le> 0"
      using s unfolding p by (rule logpmf_inside_nonpos [rotated])
    then show ?thesis
      using Some by (simp add: PMF_call_def)
  qed
  have "PMF_call p y = 0" if "y < Min (set ts) \<or> Max (set ts) < y"
    using logpmf_outside [OF s ne that, of k] by (simp add: PMF_call_def p)
  then show ?thesis
    using range ts by simp
qed


lemma demo_fit_small: "demo_gaussian_kde (cells small_store 0) = Inr demo_kernel"
  by (simp add: demo_gaussian_kde_def small_store_def)

lemma demo_fit_big: "demo_gaussian_kde (cells big_store 0) = Inr demo_kernel"
  by (simp add: demo_gaussian_kde_def big_store_def)

theorem PMF_call_bounds_witness:
  "PMF_init demo_gaussian_kde small_store 0 =
     Inr (pmf_of demo_kernel (sort (resample demo_kernel 1000)),
          small_store\<lparr>cells := (cells small_store)(1 := sort (resample demo_kernel 1000)), nxt := 2\<rparr>)
   \<and> 0 \<le> PMF_call (pmf_of demo_kernel (sort (resample demo_kernel 1000))) 7
   \<and> PMF_call (pmf_of demo_kernel (sort (resample demo_kernel 1000))) 7 \<le> 1
   \<and> - 1 < Min (set (pmf_ts (pmf_of demo_kernel (sort (resample demo_kernel 1000)))))
   \<and> PMF_call (pmf_of demo_kernel (sort (resample demo_kernel 1000))) (- 1) = 0"
proof -
  let ?p = "pmf_of demo_kernel (sort (resample demo_kernel 1000))"
  have run: "PMF_init demo_gaussian_kde small_store 0 =
     Inr (?p,
          small_store\<lparr>cells := (cells small_store)(1 := sort (resample demo_kernel 1000)), nxt := 2\<rparr>)"
    using PMF_init_resampled [where gaussian_kde = demo_gaussian_kde and st = small_store and a = 0 and k = demo_kernel] demo_fit_small
    by (simp add: small_store_def)
  have ts: "set (pmf_ts ?p) = draw demo_kernel ` {0..<1000}"
    by (simp add: pmf_of_def resample_def)
  have "\<forall>v\<in>set (pmf_ts ?p). - 1 < v"
    unfolding ts by (simp add: demo_kernel_def)
  moreover have "set (pmf_ts ?p) \<noteq> {}"
    unfolding ts by simp
  ultimately have below: "- 1 < Min (set (pmf_ts ?p))"
    by simp
  show ?thesis
    using PMF_call_bounds [where gaussian_kde = demo_gaussian_kde and st = small_store and a = 0
        and y = 7, OF run]
      PMF_call_bounds [where gaussian_kde = demo_gaussian_kde and st = small_store and a = 0
        and y = "- 1", OF run] run below
    by blast
qed

text \<open>
  Claim C2, as amended.  When the kernel can be fitted, construction succeeds.  For a
  column of fewer than 1000 values the values used for the rank calibration are the 1000
  values drawn from the fitted density, sorted, and nothing else; for a column of 1000
  values or more they are the column's own values, sorted.  The constructed PMF is the
  interpolant on these values: its abscissae are the values and its log-masses are the
  logarithms of the ranks of the fitted density on these same values, divided by their
  number.  At least 1000 values are used in both cases.
\<close>

theorem PMF_init_values_used:
  assumes "gaussian_kde (cells st a) = Inr k"
  defines "ts \<equiv> (if length (cells st a) < 1000 then sort (resample k 1000)
                   else sort (cells st a))"
  shows "(\<exists>st'. PMF_init gaussian_kde st a = Inr (pmf_of k ts, st'))
           \<and> pmf_ts (pmf_of k ts) = ts
           \<and> pmf_logms (pmf_of k ts) =
               map (\<lambda>r. ln (r / real (length ts))) (rankdata (map (evaluate k) ts))
           \<and> 1000 \<le> length ts"
proof (cases "length (cells st a) < 1000")
  case True
  then have "ts = sort (resample k 1000)"
    by (simp add: ts_def)
  then show ?thesis
    using PMF_init_resampled [of gaussian_kde st a k] assms(1) True
    by (simp add: pmf_of_def length_resample)
next
  case False
  then have "ts = sort (cells st a)"
    by (simp add: ts_def)
  then show ?thesis
    using PMF_init_in_place [of gaussian_kde st a k] assms(1) False
    by (simp add: pmf_of_def)
qed

theorem PMF_init_values_used_witness:
  "(\<exists>st'. PMF_init demo_gaussian_kde small_store 0 =
            Inr (pmf_of demo_kernel (sort (resample demo_kernel 1000)), st'))
   \<and> pmf_ts (pmf_of demo_kernel (sort (resample demo_kernel 1000))) =
       sort (resample demo_kernel 1000)
   \<and> 1000 \<le> length (sort (resample demo_kernel 1000))
   \<and> (\<exists>st'. PMF_init demo_gaussian_kde big_store 0 =
            Inr (pmf_of demo_kernel (sort (cells big_store 0)), st'))"
proof -
  have small: "length (cells small_store 0) < 1000"
    by (simp add: small_store_def)
  have big: "\<not> length (cells big_store 0) < 1000"
    by (simp add: big_store_def)
  show ?thesis
    using
      PMF_init_values_used [where gaussian_kde = demo_gaussian_kde and st = small_store
        and a = 0 and k = demo_kernel, OF demo_fit_small]
      PMF_init_values_used [where gaussian_kde = demo_gaussian_kde and st = big_store
        and a = 0 and k = demo_kernel, OF demo_fit_big]
      small big
    by simp
qed

text \<open>
  Claim C2, as stated, fails: the drawn values replace the column instead of being added
  to it.  The column \<open>[3, 0, 1]\<close> has fewer than 1000 values, and its value 3 is not among
  the values the constructed PMF is calibrated on.
\<close>

theorem PMF_init_augment_counterexample:
  "PMF_init demo_gaussian_kde small_store 0 =
     Inr (pmf_of demo_kernel (sort (resample demo_kernel 1000)),
          small_store\<lparr>cells := (cells small_store)(1 := sort (resample demo_kernel 1000)), nxt := 2\<rparr>)
   \<and> cells small_store 0 = [3, 0, 1]
   \<and> 3 \<notin> set (pmf_ts (pmf_of demo_kernel (sort (resample demo_kernel 1000))))"
proof -
  have run: "PMF_init demo_gaussian_kde small_store 0 =
     Inr (pmf_of demo_kernel (sort (resample demo_kernel 1000)),
          small_store\<lparr>cells := (cells small_store)(1 := sort (resample demo_kernel 1000)), nxt := 2\<rparr>)"
    using PMF_init_resampled [where gaussian_kde = demo_gaussian_kde and st = small_store and a = 0 and k = demo_kernel] demo_fit_small
    by (simp add: small_store_def)
  have "3 \<notin> set (resample demo_kernel 1000)"
  proof
    assume "3 \<in> set (resample demo_kernel 1000)"
    then obtain i :: nat where "3 = draw demo_kernel i"
      unfolding resample_def by auto
    then have "real i + 1 / 2 = 3"
      by (simp add: demo_kernel_def)
    then have "real (2 * i) = real 5"
      by simp
    then have "2 * i = 5"
      by (simp only: of_nat_eq_iff)
    then show False
      by presburger
  qed
  then show ?thesis
    using run by (simp add: pmf_of_def small_store_def)
qed

text \<open>
  Claim C9.  Constructing a PMF from a column of 1000 values or more changes the caller's
  array: in the store after the call the array at the argument's address is the sorted
  column, and nothing else has changed.
\<close>

theorem PMF_init_sorts_argument:
  assumes "1000 \<le> length (cells st a)" and "gaussian_kde (cells st a) = Inr k"
  shows "PMF_init gaussian_kde st a =
           Inr (pmf_of k (sort (cells st a)), st\<lparr>cells := (cells st)(a := sort (cells st a))\<rparr>)"
  using assms by (simp add: PMF_init_in_place)

theorem PMF_init_sorts_argument_witness:
  "1000 \<le> length (cells big_store 0)
   \<and> PMF_init demo_gaussian_kde big_store 0 =
       Inr (pmf_of demo_kernel (sort (cells big_store 0)),
            big_store\<lparr>cells := (cells big_store)(0 := sort (cells big_store 0))\<rparr>)
   \<and> sort (cells big_store 0) \<noteq> cells big_store 0"
proof -
  have len: "1000 \<le> length (cells big_store 0)"
    by (simp add: big_store_def)
  have "\<not> sorted (cells big_store 0)"
    by (simp add: big_store_def)
  then have "sort (cells big_store 0) \<noteq> cells big_store 0"
    by (metis sorted_sort)
  then show ?thesis
    using PMF_init_sorts_argument [where gaussian_kde = demo_gaussian_kde and st = big_store
        and a = 0 and k = demo_kernel] len demo_fit_big
    by simp
qed

section \<open>Properties of the function-evaluation stage\<close>

lemma concatenate_axis1_error: "concatenate_axis1 ms = Inl e \<Longrightarrow> e = ValueError"
  by (auto simp add: concatenate_axis1_def split: list.splits if_splits)

lemma evaluate_models_error: "evaluate_models f x samples parallel = Inl e \<Longrightarrow> e = ValueError"
  unfolding evaluate_models_def by (rule concatenate_axis1_error)

text \<open>
  Claim C7.  When a cache identifier is given and the check fails with a cache error, the
  function-evaluation stage does not propagate it: the diagnostic is printed, the matrix
  is recomputed, and what is returned is the outcome of the recomputation, which is never
  a cache error; when the recomputation yields a matrix, that matrix is saved to the
  cache before it is returned.
\<close>

theorem compute_samples_cache_error_recovered:
  assumes "Cache_check w (Cache (c @ ''_fsamples'')) x samples = Inl (CacheError msg)"
  shows "samples_compute_samples f x samples parallel (Some c) [] w =
           (case evaluate_models f x samples parallel of
              Inl e \<Rightarrow> (Inl e, w\<lparr>printed := printed w @ [msg]\<rparr>)
            | Inr fsamples \<Rightarrow>
                (Inr fsamples,
                 Cache_save (w\<lparr>printed := printed w @ [msg]\<rparr>) (Cache (c @ ''_fsamples''))
                   x samples fsamples))
         \<and> (\<forall>msg'. fst (samples_compute_samples f x samples parallel (Some c) [] w)
                      \<noteq> Inl (CacheError msg'))"
proof -
  have run: "samples_compute_samples f x samples parallel (Some c) [] w =
           (case evaluate_models f x samples parallel of
              Inl e \<Rightarrow> (Inl e, w\<lparr>printed := printed w @ [msg]\<rparr>)
            | Inr fsamples \<Rightarrow>
                (Inr fsamples,
                 Cache_save (w\<lparr>printed := printed w @ [msg]\<rparr>) (Cache (c @ ''_fsamples''))
                   x samples fsamples))"
    using assms by (simp add: samples_compute_samples_def Let_def split: sum.split)
  have "fst (samples_compute_samples f x samples parallel (Some c) [] w) \<noteq> Inl (CacheError msg')"
    for msg'
    unfolding run using evaluate_models_error [of f x samples parallel]
    by (cases "evaluate_models f x samples parallel") auto
  then show ?thesis
    using run by simp
qed

lemma line_matrix:
  "evaluate_models [line] [0, 1] [[[1, 0], [2, 5]]] None = Inr [[0, 5], [1, 7]]"
  by (simp add: evaluate_models_def parallel_apply_def line_def concatenate_axis1_def)

theorem compute_samples_cache_error_recovered_witness:
  "Cache_check empty_world (Cache (''run'' @ ''_fsamples'')) [0, 1] [[[1, 0], [2, 5]]] =
     Inl (CacheError ''No cache file run_fsamples'')
   \<and> samples_compute_samples [line] [0, 1] [[[1, 0], [2, 5]]] None (Some ''run'') [] empty_world =
       (Inr [[0, 5], [1, 7]],
        \<lparr> files = [''run_fsamples'' \<mapsto> ([0, 1], [[[1, 0], [2, 5]]], [[0, 5], [1, 7]])],
          printed = [''No cache file run_fsamples''] \<rparr>)"
proof -
  have miss: "Cache_check empty_world (Cache (''run'' @ ''_fsamples'')) [0, 1] [[[1, 0], [2, 5]]] =
     Inl (CacheError ''No cache file run_fsamples'')"
    by (simp add: Cache_check_def Cache_def empty_world_def)
  show ?thesis
    using compute_samples_cache_error_recovered [where f = "[line]" and parallel = None, OF miss] miss
    by (simp add: line_matrix Cache_save_def Cache_def empty_world_def)
qed

section \<open>Properties of the weight rescaling in compute_samples\<close>

lemma zip_evidence:
  "map (\<lambda>(w, Z). map (\<lambda>v. v / sum_list w * Z) w)
     (zip weights (map (\<lambda>l. exp (l - Max (set logZs))) logZs)) =
   evidence_scaled logZs weights"
  by (simp add: evidence_scaled_def zip_map2 case_prod_unfold)

lemma Max_of_Maxes:
  fixes ws :: "real list list"
  assumes "ws \<noteq> []" and "\<forall>w\<in>set ws. w \<noteq> []"
  shows "Max (set (map (\<lambda>w. Max (set w)) ws)) = Max (set (concat ws))"
  using assms
proof (induction ws rule: list_nonempty_induct)
  case (single w)
  then show ?case by simp
next
  case (cons w ws)
  have w: "set w \<noteq> {}" "finite (set w)"
    using cons.prems by simp_all
  have c: "set (concat ws) \<noteq> {}" "finite (set (concat ws))"
    using cons.hyps cons.prems by (cases ws) auto
  have m: "set (map (\<lambda>w. Max (set w)) ws) \<noteq> {}" "finite (set (map (\<lambda>w. Max (set w)) ws))"
    using cons.hyps by simp_all
  have "Max (set (map (\<lambda>w. Max (set w)) (w # ws))) =
          max (Max (set w)) (Max (set (map (\<lambda>w. Max (set w)) ws)))"
    using m by (simp del: set_map)
  also have "\<dots> = max (Max (set w)) (Max (set (concat ws)))"
    using cons.IH cons.prems by simp
  also have "\<dots> = Max (set w \<union> set (concat ws))"
    using w c by (simp add: Max.union)
  finally show ?case by simp
qed

lemma largest_weight_max_scaled:
  assumes "concat ws \<noteq> []" and "0 < largest_weight ws"
  shows "largest_weight (max_scaled ws) = 1"
proof -
  let ?M = "largest_weight ws"
  have mono: "mono (\<lambda>v :: real. v / ?M)"
    using assms(2) by (simp add: mono_def divide_right_mono)
  have "set (concat (max_scaled ws)) = (\<lambda>v. v / ?M) ` set (concat ws)"
    by (auto simp add: max_scaled_def)
  then have "largest_weight (max_scaled ws) = Max ((\<lambda>v. v / ?M) ` set (concat ws))"
    by (simp add: largest_weight_def)
  also have "\<dots> = Max (set (concat ws)) / ?M"
    using mono_Max_commute [OF mono, of "set (concat ws)"] assms(1) by simp
  also have "\<dots> = 1"
    using assms(2) by (simp add: largest_weight_def)
  finally show ?thesis .
qed

lemma sum_list_concat_rows:
  fixes ws :: "real list list"
  shows "sum_list (map sum_list ws) = sum_list (concat ws)"
  by (induction ws) simp_all

lemma ne_in_set: "u \<in> A \<Longrightarrow> A \<noteq> {}"
  by blast

lemma positive_entry:
  fixes w :: "real list"
  assumes "0 < sum_list w"
  shows "\<exists>v\<in>set w. 0 < v"
proof (rule ccontr)
  assume "\<not> (\<exists>v\<in>set w. 0 < v)"
  then have "\<forall>v\<in>set w. v \<le> 0" by auto
  then have "sum_list w \<le> 0" by (induction w) auto
  then show False using assms by simp
qed


lemma evidence_scaled_members:
  assumes "w' \<in> set (evidence_scaled logZs weights)"
  obtains w l where "w \<in> set weights" and "l \<in> set logZs"
    and "w' = map (\<lambda>v. v / sum_list w * exp (l - Max (set logZs))) w"
proof -
  obtain q where q: "q \<in> set (zip weights logZs)"
    and w': "w' = map (\<lambda>v. v / sum_list (fst q) * exp (snd q - Max (set logZs))) (fst q)"
    using assms by (auto simp add: evidence_scaled_def)
  obtain w l where ql: "q = (w, l)" by (cases q)
  have "w \<in> set weights" and "l \<in> set logZs"
    using q unfolding ql by (auto dest: set_zip_leftD set_zip_rightD)
  then show ?thesis
    using that [of w l] w' ql by simp
qed

lemma compute_samples_weights_run:
  assumes "logZs \<noteq> []" and "length weights = length logZs" and "\<forall>w\<in>set weights. w \<noteq> []"
  shows "compute_samples_weights logZs weights ntrim =
           Inr (ntrim_scaled ntrim (max_scaled (evidence_scaled logZs weights)))"
proof -
  let ?W1 = "evidence_scaled logZs weights"
  have "weights \<noteq> []"
    using assms(1,2) by auto
  then have ne: "?W1 \<noteq> []"
    using assms(1) by (simp add: evidence_scaled_def)
  have each: "\<forall>w\<in>set ?W1. w \<noteq> []"
  proof
    fix w' assume "w' \<in> set ?W1"
    then obtain w l where "w \<in> set weights"
      and "w' = map (\<lambda>v. v / sum_list w * exp (l - Max (set logZs))) w"
      by (rule evidence_scaled_members)
    then show "w' \<noteq> []"
      using assms(3) by simp
  qed
  have wmax: "Max (set (map (\<lambda>w. Max (set w)) ?W1)) = largest_weight ?W1"
    unfolding largest_weight_def using ne each by (rule Max_of_Maxes)
  have w2: "map (\<lambda>w. map (\<lambda>v. v / largest_weight ?W1) w) ?W1 = max_scaled ?W1"
    by (simp add: max_scaled_def)
  have ntot: "sum_list (map sum_list (max_scaled ?W1)) = total_weight (max_scaled ?W1)"
    by (simp add: total_weight_def sum_list_concat_rows)
  have "\<not> ((\<exists>w\<in>set ?W1. w = []) \<or> ?W1 = [])"
    using ne each by blast
  then show ?thesis
    unfolding compute_samples_weights_def Let_def zip_evidence wmax w2 ntot
    using assms(1) by (simp add: ntrim_scaled_def split: option.split)
qed

lemma largest_weight_evidence_pos:
  assumes "logZs \<noteq> []" and "length weights = length logZs"
    and "\<forall>w\<in>set weights. (\<forall>v\<in>set w. 0 \<le> v) \<and> 0 < sum_list w"
  shows "concat (evidence_scaled logZs weights) \<noteq> []"
    and "0 < largest_weight (evidence_scaled logZs weights)"
proof -
  let ?W1 = "evidence_scaled logZs weights"
  obtain w0 ws0 where w: "weights = w0 # ws0"
    using assms(1,2) by (cases weights) auto
  obtain l0 ls0 where l: "logZs = l0 # ls0"
    using assms(1) by (cases logZs) auto
  have s: "0 < sum_list w0"
    using assms(3) w by simp
  then obtain v where v: "v \<in> set w0" "0 < v"
    using positive_entry by blast
  let ?u = "v / sum_list w0 * exp (l0 - Max (set logZs))"
  have pos: "0 < ?u"
    using v s by simp
  have mem: "?u \<in> set (concat ?W1)"
    using v(1) unfolding w l evidence_scaled_def by auto
  have "set (concat ?W1) \<noteq> {}"
    using mem by (rule ne_in_set)
  then show "concat ?W1 \<noteq> []"
    by (simp only: set_empty [symmetric] not_False_eq_True)
  have "?u \<le> Max (set (concat ?W1))"
    using mem by (intro Max_ge) simp_all
  then show "0 < largest_weight ?W1"
    using pos by (simp add: largest_weight_def)
qed

lemma default_weights_given:
  assumes "length weights = length samples"
  shows "map (\<lambda>(i, s). case i of Some v \<Rightarrow> v | None \<Rightarrow> replicate (length s) (1::real))
           (zip (map Some weights) samples) = weights"
  using assms by (induction weights samples rule: list_induct2) simp_all

lemma compute_samples_multi:
  assumes "length f = length logZs" and "length samples = length logZs"
    and "length weights = length logZs"
    and "list_all2 (\<lambda>w s. length w = length s) weights samples"
    and "compute_samples_weights logZs weights ntrim = Inr W"
  shows "compute_samples R (Multi logZs f samples (map Some weights)) x parallel ntrim cache []
           (g, w) =
         (case trim_models R samples W g of
            (Inl e, g1) \<Rightarrow> (Inl e, g1, w)
          | (Inr trimmed, g1) \<Rightarrow>
              (case samples_compute_samples f x trimmed parallel cache [] w of
                 (Inl e, w1) \<Rightarrow> (Inl e, g1, w1)
               | (Inr fsamps, w1) \<Rightarrow> (Inr (x, fsamps), g1, w1)))"
proof -
  have d: "map (\<lambda>(i, s). case i of Some v \<Rightarrow> v | None \<Rightarrow> replicate (length s) (1::real))
             (zip (map Some weights) samples) = weights"
    using assms(2,3) by (simp add: default_weights_given)
  have ok: "\<not> (\<exists>(w', s) \<in> set (zip weights samples). length w' \<noteq> length s)"
    using assms(4) by (auto simp add: list_all2_iff)
  show ?thesis
    unfolding compute_samples_def Let_def
    using assms(1,2,3,5) ok by (simp add: d)
qed

text \<open>
  Claim C4.  For a model group with non-negative weights of positive sum, the weights
  that \<open>compute_samples\<close> hands to the trimming are obtained in this order: every model's
  normalised weights scaled by \<open>exp (logZ - max logZ)\<close>, then all weights divided by the
  single largest weight, after which the largest weight over all models is 1, and only
  then, when \<open>ntrim\<close> is given and below the total weight, all weights multiplied by
  \<open>ntrim / ntot\<close>.  The trimming runs on these weights.
\<close>

theorem compute_samples_weights_order:
  fixes ntrim :: "real option"
  assumes "logZs \<noteq> []" and "length weights = length logZs"
    and "\<forall>w\<in>set weights. (\<forall>v\<in>set w. 0 \<le> v) \<and> 0 < sum_list w"
    and "length f = length logZs" and "length samples = length logZs"
    and "list_all2 (\<lambda>w s. length w = length s) weights samples"
  defines "W \<equiv> ntrim_scaled ntrim (max_scaled (evidence_scaled logZs weights))"
  shows "compute_samples_weights logZs weights ntrim = Inr W
         \<and> largest_weight (max_scaled (evidence_scaled logZs weights)) = 1
         \<and> compute_samples R (Multi logZs f samples (map Some weights)) x parallel ntrim cache []
             (g, w) =
           (case trim_models R samples W g of
              (Inl e, g1) \<Rightarrow> (Inl e, g1, w)
            | (Inr trimmed, g1) \<Rightarrow>
                (case samples_compute_samples f x trimmed parallel cache [] w of
                   (Inl e, w1) \<Rightarrow> (Inl e, g1, w1)
                 | (Inr fsamps, w1) \<Rightarrow> (Inr (x, fsamps), g1, w1)))"
proof -
  have "\<forall>w\<in>set weights. w \<noteq> []"
    using assms(3) by auto
  then have run: "compute_samples_weights logZs weights ntrim = Inr W"
    unfolding W_def using assms(1,2) by (simp add: compute_samples_weights_run)
  have one: "largest_weight (max_scaled (evidence_scaled logZs weights)) = 1"
    using largest_weight_evidence_pos [OF assms(1,2,3)] by (rule largest_weight_max_scaled)
  show ?thesis
    using run one compute_samples_multi [OF assms(4,5,2,6) run] by simp
qed

theorem compute_samples_weights_order_witness:
  "compute_samples_weights [0, 0] [[1, 3], [2]] (Some 1) = Inr [[1 / 8, 3 / 8], [1 / 2]]
   \<and> largest_weight (max_scaled (evidence_scaled [0, 0] [[1, 3], [2]])) = 1"
proof -
  have e: "evidence_scaled [0, 0] [[1, 3], [2]] = [[1 / 4, 3 / 4], [1]]"
    by (simp add: evidence_scaled_def)
  have m: "max_scaled [[1 / 4, 3 / 4], [1]] = [[1 / 4, 3 / 4], [1]]"
    by (simp add: max_scaled_def largest_weight_def)
  have n: "ntrim_scaled (Some 1) [[1 / 4, 3 / 4], [1]] = [[1 / 8, 3 / 8], [1 / 2]]"
    by (simp add: ntrim_scaled_def total_weight_def)
  have h: "\<forall>w\<in>set [[1, 3], [2 :: real]]. (\<forall>v\<in>set w. 0 \<le> v) \<and> 0 < sum_list w"
    by simp
  have l: "list_all2 (\<lambda>w s. length w = length s) [[1, 3], [2 :: real]]
             [[[1, 0], [2, 5]], [[3, 3 :: real]]]"
    by simp
  show ?thesis
    using compute_samples_weights_order [where logZs = "[0, 0]" and weights = "[[1, 3], [2]]"
        and f = "[line, line]" and samples = "[[[1, 0], [2, 5]], [[3, 3]]]"
        and ntrim = "Some 1" and R = lcg and x = "[0, 1]" and parallel = None and cache = None
        and g = 5 and w = empty_world, OF _ _ h _ _ l]
    by (simp add: e m n)
qed

end
